theory Spec2Isabelle
  imports Main "HOL-Library.Char_ord" "HOL-Library.List_Lexorder" "HOL-Library.Multiset"
begin

section \<open>Paths and the filesystem\<close>

text \<open>
  The widgets work on \<^verbatim>\<open>pathlib.Path\<close> values that have gone through
  \<^verbatim>\<open>resolve()\<close>, so every path of the model is absolute: a drive (empty on POSIX,
  \<^verbatim>\<open>C:\<close> on Windows) and the components below the root. A component may still be
  \<^verbatim>\<open>..\<close>, since \<^verbatim>\<open>self._location / ".."\<close> does not collapse it.
\<close>

record path =
  drive :: string
  parts :: "string list"

text \<open>\<^verbatim>\<open>Path.name\<close>: the final component, empty for a bare root.\<close>

definition name :: "path \<Rightarrow> string" where
  "name p = (if parts p = [] then [] else last (parts p))"

text \<open>\<^verbatim>\<open>location / child\<close> with a single component on the right.\<close>

definition joinpath :: "path \<Rightarrow> string \<Rightarrow> path" where
  "joinpath p c = p\<lparr>parts := parts p @ [c]\<rparr>"

text \<open>
  \<^verbatim>\<open>Path.resolve()\<close> on an absolute path of a filesystem without symbolic links: each
  \<^verbatim>\<open>..\<close> removes the component before it, and stays at the root when there is none.
\<close>

fun collapse :: "string list \<Rightarrow> string list \<Rightarrow> string list" where
  "collapse acc [] = acc"
| "collapse acc (c # cs) =
     (if c = ''..'' then collapse (butlast acc) cs else collapse (acc @ [c]) cs)"

definition resolve :: "path \<Rightarrow> path" where
  "resolve p = p\<lparr>parts := collapse [] (parts p)\<rparr>"

text \<open>
  \<^verbatim>\<open>Path(p.root)\<close>: \<^verbatim>\<open>root\<close> is the root separator alone, without the drive, so the
  path built from it has an empty drive and no component.
\<close>

definition Path_of_root :: "path \<Rightarrow> path" where
  "Path_of_root p = \<lparr>drive = [], parts = []\<rparr>"

text \<open>
  What the glossary of the specification calls a root: a top-level mount point such as
  a drive, that is a path with no component below its anchor.
\<close>

definition filesystem_root :: "path \<Rightarrow> bool" where
  "filesystem_root p = (parts p = [])"

text \<open>
  A filesystem maps a resolved path to what is there: a directory with its modification
  time and the names of its children in enumeration order, or another file with its
  modification time.
\<close>

datatype node = Dir int "string list" | File int

type_synonym filesystem = "path \<Rightarrow> node option"

datatype error =
  FileNotFoundError | NotADirectoryError | ValueError | AttributeError | OSError

text \<open>
  The system follows a path as it is written, one component after the other from the
  root of its drive: where it stands must be a directory before it takes the next
  component, \<^verbatim>\<open>..\<close> included, and what it ends on must exist.
\<close>

fun walk :: "filesystem \<Rightarrow> string \<Rightarrow> string list \<Rightarrow> string list \<Rightarrow> error + node" where
  "walk fs dr at [] =
     (case fs \<lparr>drive = dr, parts = at\<rparr> of
        None \<Rightarrow> Inl FileNotFoundError
      | Some nd \<Rightarrow> Inr nd)"
| "walk fs dr at (c # cs) =
     (case fs \<lparr>drive = dr, parts = at\<rparr> of
        None \<Rightarrow> Inl FileNotFoundError
      | Some (File m) \<Rightarrow> Inl NotADirectoryError
      | Some (Dir m ns) \<Rightarrow> walk fs dr (if c = ''..'' then butlast at else at @ [c]) cs)"

definition lookup :: "filesystem \<Rightarrow> path \<Rightarrow> error + node" where
  "lookup fs p = walk fs (drive p) [] (parts p)"

text \<open>
  \<^verbatim>\<open>location.stat().st_mtime\<close>, truncated to seconds; raises when the path cannot be
  followed.
\<close>

definition stat_mtime :: "filesystem \<Rightarrow> path \<Rightarrow> error + int" where
  "stat_mtime fs p =
     (case lookup fs p of
        Inl e \<Rightarrow> Inl e
      | Inr (Dir m ns) \<Rightarrow> Inr m
      | Inr (File m) \<Rightarrow> Inr m)"

text \<open>
  \<^verbatim>\<open>entry.is_dir()\<close>: false, not an error, for a path that is not there or runs
  through a file.
\<close>

definition is_dir :: "filesystem \<Rightarrow> path \<Rightarrow> bool" where
  "is_dir fs p = (case lookup fs p of Inr (Dir m ns) \<Rightarrow> True | _ \<Rightarrow> False)"

text \<open>\<^verbatim>\<open>location.iterdir()\<close>: the names of the children, or the error of the listing.\<close>

definition iterdir :: "filesystem \<Rightarrow> path \<Rightarrow> error + string list" where
  "iterdir fs p =
     (case lookup fs p of
        Inl e \<Rightarrow> Inl e
      | Inr (File m) \<Rightarrow> Inl NotADirectoryError
      | Inr (Dir m ns) \<Rightarrow> Inr ns)"

section \<open>Directory entries\<close>

text \<open>
  \<^verbatim>\<open>datetime.fromtimestamp\<close> raises for a time outside the years 1 to 9999; inside
  them the time stands for its own text (the offset of the local zone and the layout of
  the text are left out).
\<close>

definition fromtimestamp :: "int \<Rightarrow> error + int" where
  "fromtimestamp m =
     (if - 62135596800 \<le> m \<and> m \<le> 253402300799 then Inr m else Inl ValueError)"

text \<open>\<^verbatim>\<open>DirectoryEntry._mtime\<close>: raises when \<^verbatim>\<open>stat\<close> or the formatting does.\<close>

definition DirectoryEntry_mtime :: "filesystem \<Rightarrow> path \<Rightarrow> error + int" where
  "DirectoryEntry_mtime fs loc =
     (case stat_mtime fs loc of Inl e \<Rightarrow> Inl e | Inr m \<Rightarrow> fromtimestamp m)"

text \<open>
  \<^verbatim>\<open>DirectoryEntry.__init__\<close> stores the resolved location and builds the prompt from
  the name of the location as given and the text of its modification time.
\<close>

record DirectoryEntry =
  location :: path
  prompt_name :: string
  prompt_mtime :: int

definition DirectoryEntry_init :: "filesystem \<Rightarrow> path \<Rightarrow> error + DirectoryEntry" where
  "DirectoryEntry_init fs loc =
     (case DirectoryEntry_mtime fs loc of
        Inl e \<Rightarrow> Inl e
      | Inr m \<Rightarrow> Inr \<lparr>location = resolve loc, prompt_name = name loc, prompt_mtime = m\<rparr>)"

section \<open>The navigation widget\<close>

text \<open>
  The state of a \<^verbatim>\<open>DirectoryNavigation\<close>: its own attributes (\<^verbatim>\<open>_mounted\<close>,
  \<^verbatim>\<open>_location\<close>, \<^verbatim>\<open>_initial_location\<close>, \<^verbatim>\<open>_entries\<close>, \<^verbatim>\<open>show_hidden\<close>,
  \<^verbatim>\<open>sort_display\<close>), what it inherits from the option list (the displayed
  \<^verbatim>\<open>options\<close> and the \<^verbatim>\<open>highlighted\<close> index), the messages it has posted, and the
  workers that \<^verbatim>\<open>_load\<close> has started, oldest first.

  A worker runs the body of \<^verbatim>\<open>_load\<close> in a thread of its own. Its program counter
  says which statement it executes next: the thread has not begun (\<open>WPending\<close>), the reset
  of the cache (\<open>WStart\<close>), the call of \<^verbatim>\<open>iterdir\<close> (\<open>WIterdir\<close>), the head of the
  loop with the directory being listed and the children still to come (\<open>WLoop\<close>), the
  append for a child that \<^verbatim>\<open>is_dir\<close> accepted (\<open>WAppend\<close>), the test of
  \<^verbatim>\<open>worker.is_cancelled\<close> (\<open>WCheck\<close>), and the three ways it ends.
\<close>

datatype message = Changed

datatype pc =
    WPending
  | WStart
  | WIterdir
  | WLoop path "string list"
  | WAppend path string "string list"
  | WCheck path "string list"
  | WDone
  | WCancelled
  | WFailed error

record worker =
  pc :: pc
  is_cancelled :: bool

record nav =
  mounted :: bool
  nav_location :: path
  initial_location :: path
  entries :: "DirectoryEntry list"
  show_hidden :: bool
  sort_display :: bool
  options :: "DirectoryEntry list"
  highlighted :: "nat option"
  messages :: "message list"
  workers :: "worker list"

text \<open>
  \<^verbatim>\<open>DirectoryNavigation.__init__\<close>. The class default of \<^verbatim>\<open>_location\<close> is the working
  directory; \<open>start\<close> is the resolved starting location, which the setter stores as the
  initial location because the widget is not mounted yet.
\<close>

definition DirectoryNavigation_init :: "path \<Rightarrow> path \<Rightarrow> nav" where
  "DirectoryNavigation_init cwd start =
     \<lparr>mounted = False, nav_location = cwd, initial_location = start, entries = [],
      show_hidden = False, sort_display = True, options = [], highlighted = None,
      messages = [], workers = []\<rparr>"

subsection \<open>The option list\<close>

definition clear_options :: "nav \<Rightarrow> nav" where
  "clear_options s = s\<lparr>options := [], highlighted := None\<rparr>"

definition add_option :: "DirectoryEntry \<Rightarrow> nav \<Rightarrow> nav" where
  "add_option e s = s\<lparr>options := options s @ [e]\<rparr>"

definition add_options :: "DirectoryEntry list \<Rightarrow> nav \<Rightarrow> nav" where
  "add_options es s = s\<lparr>options := options s @ es\<rparr>"

text \<open>
  \<^verbatim>\<open>_settle_highlight\<close> assigns 0 to a highlight that is \<^verbatim>\<open>None\<close>; the option list
  validates what is assigned, and keeps \<^verbatim>\<open>None\<close> while it has no option.
\<close>

definition settle_highlight :: "nav \<Rightarrow> nav" where
  "settle_highlight s =
     (if highlighted s = None
      then s\<lparr>highlighted := (if options s = [] then None else Some 0)\<rparr>
      else s)"

definition post_message :: "message \<Rightarrow> nav \<Rightarrow> nav" where
  "post_message m s = s\<lparr>messages := messages s @ [m]\<rparr>"

subsection \<open>The projection of the cache onto the display\<close>

definition is_root :: "nav \<Rightarrow> bool" where
  "is_root s = (nav_location s = Path_of_root (nav_location s))"

text \<open>\<^verbatim>\<open>path.name.startswith(".")\<close>\<close>

definition is_hidden :: "path \<Rightarrow> bool" where
  "is_hidden p = (case name p of [] \<Rightarrow> False | c # cs \<Rightarrow> c = CHR ''.'')"

definition hide :: "nav \<Rightarrow> path \<Rightarrow> bool" where
  "hide s p = (is_hidden p \<and> \<not> show_hidden s)"

text \<open>
  \<^verbatim>\<open>_sort\<close>: Python's \<^verbatim>\<open>sorted\<close> with a key is stable, as \<^const>\<open>sort_key\<close> is, and
  compares strings by code point.
\<close>

definition sort_entries :: "nav \<Rightarrow> DirectoryEntry list \<Rightarrow> DirectoryEntry list" where
  "sort_entries s es = (if sort_display s then sort_key (\<lambda>e. name (location e)) es else es)"

text \<open>The argument of \<^verbatim>\<open>add_options\<close> in \<^verbatim>\<open>_repopulate_display\<close>.\<close>

definition visible_entries :: "nav \<Rightarrow> DirectoryEntry list" where
  "visible_entries s = sort_entries s (filter (\<lambda>e. \<not> hide s (location e)) (entries s))"

text \<open>
  \<^verbatim>\<open>_repopulate_display\<close>. Building the parent row stats the parent directory; when
  that raises, the options have been cleared already and nothing more is done.
\<close>

definition repopulate_display :: "filesystem \<Rightarrow> nav \<Rightarrow> error option \<times> nav" where
  "repopulate_display fs s =
     (let s1 = clear_options s in
      if is_root s1
      then (None, settle_highlight (add_options (visible_entries s1) s1))
      else (case DirectoryEntry_init fs (joinpath (nav_location s1) ''..'') of
              Inl e \<Rightarrow> (Some e, s1)
            | Inr p \<Rightarrow>
                (let s2 = add_option p s1
                 in (None, settle_highlight (add_options (visible_entries s2) s2)))))"

subsection \<open>Starting and running a scan\<close>

definition finished :: "pc \<Rightarrow> bool" where
  "finished p = (case p of WDone \<Rightarrow> True | WCancelled \<Rightarrow> True | WFailed e \<Rightarrow> True | _ \<Rightarrow> False)"

text \<open>
  Calling \<^verbatim>\<open>self._load()\<close> runs nothing of the body: \<^verbatim>\<open>@work(exclusive=True)\<close>
  cancels the workers of the widget that are still running, which only sets their
  \<^verbatim>\<open>is_cancelled\<close> flag, and starts a new one.
\<close>

definition cancel :: "worker \<Rightarrow> worker" where
  "cancel w = (if finished (pc w) then w else w\<lparr>is_cancelled := True\<rparr>)"

definition load :: "nav \<Rightarrow> nav" where
  "load s = s\<lparr>workers := map cancel (workers s) @ [\<lparr>pc = WPending, is_cancelled = False\<rparr>]\<rparr>"

text \<open>
  One statement of the body of \<^verbatim>\<open>_load\<close>, run by worker \<open>w\<close> on the shared state:
  the next program counter and the state it leaves. A worker cancelled before its thread
  began never runs. The loop reads \<^verbatim>\<open>self._entries\<close> and \<^verbatim>\<open>self._location\<close> anew at
  every append, and tests the flag only after the append.
\<close>

fun load_body :: "filesystem \<Rightarrow> worker \<Rightarrow> nav \<Rightarrow> pc \<times> nav" where
  "load_body fs w s =
     (case pc w of
        WPending \<Rightarrow> (if is_cancelled w then WCancelled else WStart, s)
      | WStart \<Rightarrow> (WIterdir, s\<lparr>entries := []\<rparr>)
      | WIterdir \<Rightarrow>
          (case iterdir fs (nav_location s) of
             Inl e \<Rightarrow> (WFailed e, s)
           | Inr ns \<Rightarrow> (WLoop (nav_location s) ns, s))
      | WLoop d [] \<Rightarrow>
          (case repopulate_display fs s of
             (None, s') \<Rightarrow> (WDone, s')
           | (Some e, s') \<Rightarrow> (WFailed e, s'))
      | WLoop d (n # ns) \<Rightarrow>
          (if is_dir fs (joinpath d n) then WAppend d n ns else WCheck d ns, s)
      | WAppend d n ns \<Rightarrow>
          (case DirectoryEntry_init fs (joinpath (nav_location s) n) of
             Inl e \<Rightarrow> (WFailed e, s)
           | Inr e \<Rightarrow> (WCheck d ns, s\<lparr>entries := entries s @ [e]\<rparr>))
      | WCheck d ns \<Rightarrow> (if is_cancelled w then WCancelled else WLoop d ns, s)
      | WDone \<Rightarrow> (WDone, s)
      | WCancelled \<Rightarrow> (WCancelled, s)
      | WFailed e \<Rightarrow> (WFailed e, s))"

definition set_pc :: "nat \<Rightarrow> pc \<Rightarrow> nav \<Rightarrow> nav" where
  "set_pc i p s = s\<lparr>workers := (workers s)[i := (workers s ! i)\<lparr>pc := p\<rparr>]\<rparr>"

definition load_step :: "filesystem \<Rightarrow> nat \<Rightarrow> nav \<Rightarrow> nav" where
  "load_step fs i s =
     (if i < length (workers s)
      then (case load_body fs (workers s ! i) s of (p, s') \<Rightarrow> set_pc i p s')
      else s)"

subsection \<open>The reactive attributes and the handlers\<close>

text \<open>
  \<^verbatim>\<open>_location\<close>, \<^verbatim>\<open>show_hidden\<close> and \<^verbatim>\<open>sort_display\<close> are reactive attributes:
  assigning one calls its watcher, at once and on the thread that assigns, only when the
  new value differs from the old one.
\<close>

definition watch_location :: "nav \<Rightarrow> nav" where
  "watch_location s = load (post_message Changed s)"

definition set_location :: "path \<Rightarrow> nav \<Rightarrow> nav" where
  "set_location v s = (if v = nav_location s then s else watch_location (s\<lparr>nav_location := v\<rparr>))"

text \<open>
  The setter of \<^verbatim>\<open>location\<close>; \<open>new_location\<close> is the value of
  \<^verbatim>\<open>Path(new_location).expanduser().resolve()\<close>.
\<close>

definition location_setter :: "path \<Rightarrow> nav \<Rightarrow> nav" where
  "location_setter new_location s =
     (if mounted s then set_location new_location s
      else s\<lparr>initial_location := new_location\<rparr>)"

definition on_mount :: "nav \<Rightarrow> nav" where
  "on_mount s = (let s1 = s\<lparr>mounted := True\<rparr> in set_location (initial_location s1) s1)"

definition watch_show_hidden :: "filesystem \<Rightarrow> nav \<Rightarrow> error option \<times> nav" where
  "watch_show_hidden fs s = repopulate_display fs s"

definition watch_sort_display :: "filesystem \<Rightarrow> nav \<Rightarrow> error option \<times> nav" where
  "watch_sort_display fs s = repopulate_display fs s"

definition set_show_hidden :: "filesystem \<Rightarrow> bool \<Rightarrow> nav \<Rightarrow> error option \<times> nav" where
  "set_show_hidden fs v s =
     (if v = show_hidden s then (None, s) else watch_show_hidden fs (s\<lparr>show_hidden := v\<rparr>))"

definition set_sort_display :: "filesystem \<Rightarrow> bool \<Rightarrow> nav \<Rightarrow> error option \<times> nav" where
  "set_sort_display fs v s =
     (if v = sort_display s then (None, s) else watch_sort_display fs (s\<lparr>sort_display := v\<rparr>))"

definition toggle_hidden :: "filesystem \<Rightarrow> nav \<Rightarrow> error option \<times> nav" where
  "toggle_hidden fs s = set_show_hidden fs (\<not> show_hidden s) s"

definition on_option_list_option_selected :: "DirectoryEntry \<Rightarrow> nav \<Rightarrow> nav" where
  "on_option_list_option_selected option s = set_location (location option) s"

subsection \<open>A scan run to its end\<close>

text \<open>
  The statements a worker has left to run, at most: the loop takes up to three per child.
\<close>

fun rank :: "filesystem \<Rightarrow> nav \<Rightarrow> pc \<Rightarrow> nat" where
  "rank fs s WPending =
     (case iterdir fs (nav_location s) of Inl e \<Rightarrow> 4 | Inr ns \<Rightarrow> 3 * length ns + 5)"
| "rank fs s WStart =
     (case iterdir fs (nav_location s) of Inl e \<Rightarrow> 3 | Inr ns \<Rightarrow> 3 * length ns + 4)"
| "rank fs s WIterdir =
     (case iterdir fs (nav_location s) of Inl e \<Rightarrow> 2 | Inr ns \<Rightarrow> 3 * length ns + 3)"
| "rank fs s (WLoop d ns) = 3 * length ns + 1"
| "rank fs s (WAppend d n ns) = 3 * length ns + 3"
| "rank fs s (WCheck d ns) = 3 * length ns + 2"
| "rank fs s WDone = 0"
| "rank fs s WCancelled = 0"
| "rank fs s (WFailed e) = 0"

text \<open>Worker \<open>i\<close> runs, with nothing else in between, until it ends.\<close>

function run_load :: "filesystem \<Rightarrow> nat \<Rightarrow> nav \<Rightarrow> nav" where
  "run_load fs i s =
     (if i < length (workers s) \<and> \<not> finished (pc (workers s ! i))
      then run_load fs i (load_step fs i s)
      else s)"
  by pat_completeness auto
termination
proof (relation "measure (\<lambda>(fs, i, s). rank fs s (pc (workers s ! i)))")
  show "wf (measure (\<lambda>(fs, i, s). rank fs s (pc (workers s ! i))))"
    by simp
next
  fix fs :: filesystem and i :: nat and s :: nav
  assume run: "i < length (workers s) \<and> \<not> finished (pc (workers s ! i))"
  have same: "workers (snd (repopulate_display fs s)) = workers s"
    by (simp add: repopulate_display_def Let_def clear_options_def add_option_def
        add_options_def settle_highlight_def split: sum.splits)
  have "rank fs (load_step fs i s) (pc (workers (load_step fs i s) ! i))
          < rank fs s (pc (workers s ! i))"
  proof (cases "pc (workers s ! i)")
    case (WLoop d ns)
    show ?thesis
    proof (cases ns)
      case Nil
      obtain r s' where r: "repopulate_display fs s = (r, s')"
        by (cases "repopulate_display fs s")
      with same have "workers s' = workers s"
        by simp
      with WLoop Nil r run show ?thesis
        by (cases r) (simp_all add: load_step_def set_pc_def)
    next
      case (Cons n ns')
      with WLoop run show ?thesis
        by (simp add: load_step_def set_pc_def)
    qed
  qed (use run in \<open>auto simp: load_step_def set_pc_def finished_def split: sum.splits\<close>)
  then show "((fs, i, load_step fs i s), (fs, i, s))
               \<in> measure (\<lambda>(fs, i, s). rank fs s (pc (workers s ! i)))"
    by simp
qed

declare run_load.simps [simp del]

subsection \<open>Schedules\<close>

text \<open>
  What happens to a widget, one event at a time: the handlers run on the thread of the
  application, and \<open>Step i\<close> lets worker \<open>i\<close> run one statement (\<open>Run i\<close>: all it has
  left). Mounting runs \<^verbatim>\<open>on_mount\<close> and then initialises the reactive attributes
  that ask for it, which calls the watchers of \<^verbatim>\<open>show_hidden\<close> and \<^verbatim>\<open>sort_display\<close>
  once each (\<^verbatim>\<open>_location\<close> is declared with \<^verbatim>\<open>init=False\<close>). An error raised by a
  handler is not part of the state.
\<close>

datatype action =
    Mount
  | Assign path
  | Select DirectoryEntry
  | Toggle_hidden
  | Set_sort bool
  | Step nat
  | Run nat

fun perform :: "filesystem \<Rightarrow> action \<Rightarrow> nav \<Rightarrow> nav" where
  "perform fs Mount s =
     snd (watch_sort_display fs (snd (watch_show_hidden fs (on_mount s))))"
| "perform fs (Assign p) s = location_setter p s"
| "perform fs (Select e) s = on_option_list_option_selected e s"
| "perform fs Toggle_hidden s = snd (toggle_hidden fs s)"
| "perform fs (Set_sort b) s = snd (set_sort_display fs b s)"
| "perform fs (Step i) s = load_step fs i s"
| "perform fs (Run i) s = run_load fs i s"

fun exec :: "filesystem \<Rightarrow> action list \<Rightarrow> nav \<Rightarrow> nav" where
  "exec fs [] s = s"
| "exec fs (a # as) s = exec fs as (perform fs a s)"

subsection \<open>What a scan is to find\<close>

text \<open>
  The entries of the subdirectories of \<open>d\<close> among the children \<open>ns\<close>, in the order of the
  enumeration: what a scan of \<open>d\<close> that nothing disturbs has to leave in the cache.
\<close>

definition entry_rows :: "filesystem \<Rightarrow> path \<Rightarrow> string \<Rightarrow> DirectoryEntry list" where
  "entry_rows fs d n =
     (if is_dir fs (joinpath d n)
      then (case DirectoryEntry_init fs (joinpath d n) of Inl e \<Rightarrow> [] | Inr e \<Rightarrow> [e])
      else [])"

definition subdirectories :: "filesystem \<Rightarrow> path \<Rightarrow> string list \<Rightarrow> DirectoryEntry list" where
  "subdirectories fs d ns = concat (map (entry_rows fs d) ns)"

subsection \<open>Cancelling a scan\<close>

text \<open>
  \<^verbatim>\<open>Worker.cancel()\<close> on worker \<open>i\<close> alone, as \<open>load\<close> does it to every running
  worker: the flag is set, and nothing else changes.
\<close>

definition cancel_worker :: "nat \<Rightarrow> nav \<Rightarrow> nav" where
  "cancel_worker i s = s\<lparr>workers := (workers s)[i := cancel (workers s ! i)]\<rparr>"

text \<open>
  The scan tests the flag once for each child, after it has dealt with the child. Of a
  scan that lists \<open>ns\<close>, \<open>child_at\<close> gives the index of the child whose test comes
  next, if the thread has begun and a test is still to come.
\<close>

fun child_at :: "string list \<Rightarrow> pc \<Rightarrow> nat option" where
  "child_at ns WStart = (if ns = [] then None else Some 0)"
| "child_at ns WIterdir = (if ns = [] then None else Some 0)"
| "child_at ns (WLoop d todo) = (if todo = [] then None else Some (length ns - length todo))"
| "child_at ns (WAppend d n todo) = Some (length ns - Suc (length todo))"
| "child_at ns (WCheck d todo) = Some (length ns - Suc (length todo))"
| "child_at ns WPending = None"
| "child_at ns WDone = None"
| "child_at ns WCancelled = None"
| "child_at ns (WFailed e) = None"



section \<open>The drive navigation widget\<close>

text \<open>
  \<^verbatim>\<open>DriveNavigation.on_mount\<close> passes what \<^verbatim>\<open>os.listdrives()\<close> returns to
  \<^verbatim>\<open>add_options\<close>. The outcome of that call belongs to the platform: the drives, an
  \<^verbatim>\<open>OSError\<close>, or an \<^verbatim>\<open>AttributeError\<close> where the function does not exist.
\<close>

record drive_nav =
  drive_options :: "string list"
  drive_messages :: "string list"

definition drive_on_mount :: "error + string list \<Rightarrow> drive_nav \<Rightarrow> error + drive_nav" where
  "drive_on_mount listdrives s =
     (case listdrives of
        Inl e \<Rightarrow> Inl e
      | Inr ds \<Rightarrow> Inr (s\<lparr>drive_options := drive_options s @ ds\<rparr>))"

text \<open>\<^verbatim>\<open>select_drive\<close> posts \<^verbatim>\<open>DriveSelected\<close> with the prompt of the option.\<close>

definition select_drive :: "string \<Rightarrow> drive_nav \<Rightarrow> drive_nav" where
  "select_drive prompt s = s\<lparr>drive_messages := drive_messages s @ [prompt]\<rparr>"

section \<open>Entries as objects\<close>

text \<open>
  \<^verbatim>\<open>DirectoryEntry\<close> defines no \<^verbatim>\<open>__eq__\<close>, and neither does the \<^verbatim>\<open>Option\<close> it
  extends, so \<^verbatim>\<open>==\<close> on two entries is the identity of objects. An object is a
  reference into a heap; every construction allocates a new one.
\<close>

type_synonym ref = nat

type_synonym heap = "DirectoryEntry list"

definition new_DirectoryEntry :: "filesystem \<Rightarrow> path \<Rightarrow> heap \<Rightarrow> error + (ref \<times> heap)" where
  "new_DirectoryEntry fs loc h =
     (case DirectoryEntry_init fs loc of
        Inl e \<Rightarrow> Inl e
      | Inr v \<Rightarrow> Inr (length h, h @ [v]))"

definition entry_eq :: "ref \<Rightarrow> ref \<Rightarrow> bool" where
  "entry_eq a b = (a = b)"

section \<open>Example filesystems and states\<close>

definition tree :: "((string \<times> string list) \<times> node) list \<Rightarrow> filesystem" where
  "tree tbl p = map_of tbl (drive p, parts p)"

definition posix :: "string list \<Rightarrow> path" where
  "posix ps = \<lparr>drive = [], parts = ps\<rparr>"

text \<open>
  A POSIX filesystem: \<^verbatim>\<open>/a\<close> holds the directories \<^verbatim>\<open>src\<close>, \<^verbatim>\<open>.git\<close> and
  \<^verbatim>\<open>docs\<close>, enumerated in that order, and \<^verbatim>\<open>/b\<close> holds a plain file named
  \<^verbatim>\<open>src\<close>.
\<close>

definition fs_example :: filesystem where
  "fs_example = tree
     [(([], []), Dir 1 [''a'', ''b'']),
      (([], [''a'']), Dir 2 [''src'', ''.git'', ''docs'']),
      (([], [''a'', ''src'']), Dir 3 []),
      (([], [''a'', ''.git'']), Dir 4 []),
      (([], [''a'', ''docs'']), Dir 5 []),
      (([], [''b'']), Dir 6 [''src'']),
      (([], [''b'', ''src'']), File 7)]"

text \<open>The same, after something has changed the modification time of the root.\<close>

definition fs_touched :: filesystem where
  "fs_touched = tree
     [(([], []), Dir 99 [''a'', ''b'']),
      (([], [''a'']), Dir 2 [''src'', ''.git'', ''docs'']),
      (([], [''a'', ''src'']), Dir 3 []),
      (([], [''a'', ''.git'']), Dir 4 []),
      (([], [''a'', ''docs'']), Dir 5 []),
      (([], [''b'']), Dir 6 [''src'']),
      (([], [''b'', ''src'']), File 7)]"

text \<open>A Windows filesystem with one drive.\<close>

definition fs_windows :: filesystem where
  "fs_windows = tree
     [((''C:'', []), Dir 1 [''Users'']),
      ((''C:'', [''Users'']), Dir 2 [])]"

definition c_drive :: path where
  "c_drive = \<lparr>drive = ''C:'', parts = []\<rparr>"

text \<open>
  A widget created in \<^verbatim>\<open>/a\<close> for the location \<^verbatim>\<open>/\<close>, then mounted, once its first
  scan is over: it shows \<^verbatim>\<open>/\<close> and has cached \<^verbatim>\<open>/a\<close> and \<^verbatim>\<open>/b\<close>.
\<close>

definition at_root :: nav where
  "at_root = exec fs_example [Mount, Run 0] (DirectoryNavigation_init (posix [''a'']) (posix []))"

text \<open>The same widget after it has moved to \<^verbatim>\<open>/a\<close> and the scan of \<^verbatim>\<open>/a\<close> is over.\<close>

definition at_a :: nav where
  "at_a = exec fs_example [Assign (posix [''a'']), Run 1] at_root"

text \<open>A widget on the root of drive \<^verbatim>\<open>C:\<close>, mounted, its scan over.\<close>

definition at_c_drive :: nav where
  "at_c_drive =
     exec fs_windows [Mount, Run 0]
       (DirectoryNavigation_init \<lparr>drive = ''C:'', parts = [''Users'']\<rparr> c_drive)"

text \<open>
  The widget has moved on to \<^verbatim>\<open>/a\<close>, and the scan of \<^verbatim>\<open>/a\<close> has found that its
  first child \<^verbatim>\<open>src\<close> is a directory: the append is its next statement.
\<close>

definition scanning_a :: nav where
  "scanning_a = exec fs_example [Assign (posix [''a'']), Step 1, Step 1, Step 1, Step 1] at_root"


text \<open>The first filesystem again, after a directory has been created in \<^verbatim>\<open>/a\<close>.\<close>

definition fs_grown :: filesystem where
  "fs_grown = tree
     [(([], []), Dir 1 [''a'', ''b'']),
      (([], [''a'']), Dir 8 [''src'', ''.git'', ''docs'', ''new'']),
      (([], [''a'', ''src'']), Dir 3 []),
      (([], [''a'', ''.git'']), Dir 4 []),
      (([], [''a'', ''docs'']), Dir 5 []),
      (([], [''a'', ''new'']), Dir 8 []),
      (([], [''b'']), Dir 6 [''src'']),
      (([], [''b'', ''src'']), File 7)]"

text \<open>A widget created in \<^verbatim>\<open>/a\<close> for the location \<^verbatim>\<open>/\<close> and not mounted yet.\<close>

definition unmounted :: nav where
  "unmounted = DirectoryNavigation_init (posix [''a'']) (posix [])"

text \<open>
  The widget on \<^verbatim>\<open>/\<close> has been sent to \<^verbatim>\<open>/missing\<close>, which does not exist; the
  scan has not begun.
\<close>

definition to_missing :: nav where
  "to_missing = exec fs_example [Assign (posix [''missing''])] at_root"


definition to_b :: nav where
  "to_b = exec fs_example [Assign (posix [''b''])] at_root"

section \<open>The examples, evaluated\<close>

lemmas model_defs = exec.simps perform.simps run_load.simps load_step_def load_body.simps
  set_pc_def finished_def on_mount_def set_location_def watch_location_def load_def cancel_def
  post_message_def location_setter_def DirectoryNavigation_init_def posix_def tree_def
  iterdir_def is_dir_def stat_mtime_def lookup_def resolve_def joinpath_def fromtimestamp_def
  DirectoryEntry_mtime_def DirectoryEntry_init_def watch_show_hidden_def watch_sort_display_def
  repopulate_display_def clear_options_def add_option_def add_options_def settle_highlight_def
  visible_entries_def sort_entries_def hide_def is_hidden_def name_def is_root_def
  Path_of_root_def Let_def

lemma at_root_value:
  "at_root =
     \<lparr>mounted = True, nav_location = posix [], initial_location = posix [],
      entries =
        [\<lparr>location = posix [''a''], prompt_name = ''a'', prompt_mtime = 2\<rparr>,
         \<lparr>location = posix [''b''], prompt_name = ''b'', prompt_mtime = 6\<rparr>],
      show_hidden = False, sort_display = True,
      options =
        [\<lparr>location = posix [''a''], prompt_name = ''a'', prompt_mtime = 2\<rparr>,
         \<lparr>location = posix [''b''], prompt_name = ''b'', prompt_mtime = 6\<rparr>],
      highlighted = Some 0, messages = [Changed],
      workers = [\<lparr>pc = WDone, is_cancelled = False\<rparr>]\<rparr>"
  unfolding at_root_def by (simp add: model_defs fs_example_def)

lemma scanning_a_value:
  "scanning_a =
     \<lparr>mounted = True, nav_location = posix [''a''], initial_location = posix [],
      entries = [],
      show_hidden = False, sort_display = True,
      options =
        [\<lparr>location = posix [''a''], prompt_name = ''a'', prompt_mtime = 2\<rparr>,
         \<lparr>location = posix [''b''], prompt_name = ''b'', prompt_mtime = 6\<rparr>],
      highlighted = Some 0, messages = [Changed, Changed],
      workers =
        [\<lparr>pc = WDone, is_cancelled = False\<rparr>,
         \<lparr>pc = WAppend (posix [''a'']) ''src'' [''.git'', ''docs''], is_cancelled = False\<rparr>]\<rparr>"
  unfolding scanning_a_def at_root_value by (simp add: model_defs fs_example_def)



section \<open>What a scan changes\<close>

lemma visible_entries_cong:
  "entries t = entries s \<Longrightarrow> show_hidden t = show_hidden s \<Longrightarrow> sort_display t = sort_display s
     \<Longrightarrow> visible_entries t = visible_entries s"
  by (simp add: visible_entries_def sort_entries_def hide_def)

lemma repopulate_display_root:
  "is_root s \<Longrightarrow>
     repopulate_display fs s =
       (None, s\<lparr>options := visible_entries s,
                highlighted := (if visible_entries s = [] then None else Some 0)\<rparr>)"
  by (simp add: repopulate_display_def Let_def clear_options_def add_options_def
      settle_highlight_def is_root_def visible_entries_def sort_entries_def hide_def)

lemma repopulate_display_parent:
  "\<not> is_root s \<Longrightarrow> DirectoryEntry_init fs (joinpath (nav_location s) ''..'') = Inr p \<Longrightarrow>
     repopulate_display fs s =
       (None, s\<lparr>options := p # visible_entries s, highlighted := Some 0\<rparr>)"
  by (simp add: repopulate_display_def Let_def clear_options_def add_options_def add_option_def
      settle_highlight_def is_root_def visible_entries_def sort_entries_def hide_def)

lemma repopulate_display_error:
  "\<not> is_root s \<Longrightarrow> DirectoryEntry_init fs (joinpath (nav_location s) ''..'') = Inl e \<Longrightarrow>
     repopulate_display fs s = (Some e, s\<lparr>options := [], highlighted := None\<rparr>)"
  by (simp add: repopulate_display_def Let_def clear_options_def is_root_def)

lemma repopulate_display_frame:
  "snd (repopulate_display fs s) =
     s\<lparr>options := options (snd (repopulate_display fs s)),
       highlighted := highlighted (snd (repopulate_display fs s))\<rparr>"
proof (cases "is_root s")
  case True
  then show ?thesis by (simp add: repopulate_display_root)
next
  case False
  then show ?thesis
    by (cases "DirectoryEntry_init fs (joinpath (nav_location s) ''..'')")
       (simp_all add: repopulate_display_error repopulate_display_parent)
qed

lemma repopulate_display_same:
  "workers (snd (repopulate_display fs s)) = workers s"
  "entries (snd (repopulate_display fs s)) = entries s"
  "nav_location (snd (repopulate_display fs s)) = nav_location s"
  "messages (snd (repopulate_display fs s)) = messages s"
  by (simp_all add: repopulate_display_def Let_def clear_options_def add_option_def
      add_options_def settle_highlight_def split: sum.splits)

lemma run_load_finished:
  "finished (pc (workers s ! i)) \<Longrightarrow> run_load fs i s = s"
  by (simp add: run_load.simps)

lemma run_load_unfold:
  "i < length (workers s) \<Longrightarrow> \<not> finished (pc (workers s ! i)) \<Longrightarrow>
     run_load fs i s = run_load fs i (load_step fs i s)"
  by (subst run_load.simps) simp

lemma set_pc_nth [simp]:
  "i < length (workers s) \<Longrightarrow> pc (workers (set_pc i p s) ! i) = p"
  by (simp add: set_pc_def)

lemma set_pc_length [simp]: "length (workers (set_pc i p s)) = length (workers s)"
  by (simp add: set_pc_def)

lemma set_pc_twice:
  "set_pc i q ((set_pc i p (s\<lparr>entries := es\<rparr>))\<lparr>entries := es'\<rparr>) = set_pc i q (s\<lparr>entries := es'\<rparr>)"
  by (cases "i < length (workers s)") (simp_all add: set_pc_def list_update_beyond)

lemma set_pc_same:
  assumes "pc (workers s ! i) = p"
  shows "set_pc i p s = s"
proof -
  have "(workers s ! i)\<lparr>pc := p\<rparr> = workers s ! i"
    using assms by (cases "workers s ! i") simp
  then show ?thesis by (simp add: set_pc_def)
qed

text \<open>
  Every statement of a scan but the final hand-off to \<^verbatim>\<open>_repopulate_display\<close> touches
  the cache and the worker's own program counter, and nothing else.
\<close>

lemma load_step_frame:
  assumes "i < length (workers s)" and "\<forall>d. pc (workers s ! i) \<noteq> WLoop d []"
  shows "load_step fs i s = set_pc i (pc (workers (load_step fs i s) ! i)) (s\<lparr>entries := entries (load_step fs i s)\<rparr>)"
proof (cases "pc (workers s ! i)")
  case (WLoop d ns)
  with assms obtain n ns' where "ns = n # ns'" by (cases ns) auto
  with WLoop assms show ?thesis by (simp add: load_step_def set_pc_def)
qed (use assms in \<open>auto simp: load_step_def set_pc_def split: sum.splits\<close>)

lemma load_step_handoff:
  assumes "i < length (workers s)" and "pc (workers s ! i) = WLoop d []"
  shows "finished (pc (workers (load_step fs i s) ! i))"
    and "pc (workers (load_step fs i s) ! i) \<noteq> WCancelled"
proof -
  obtain r s' where r: "repopulate_display fs s = (r, s')"
    by (cases "repopulate_display fs s")
  have "workers (snd (repopulate_display fs s)) = workers s"
    by (subst repopulate_display_frame) simp
  with r have w: "workers s' = workers s" by simp
  from assms r w show "finished (pc (workers (load_step fs i s) ! i))"
    by (cases r) (simp_all add: load_step_def set_pc_def finished_def)
  from assms r w show "pc (workers (load_step fs i s) ! i) \<noteq> WCancelled"
    by (cases r) (simp_all add: load_step_def set_pc_def)
qed

lemma load_step_length [simp]: "length (workers (load_step fs i s)) = length (workers s)"
proof (cases "i < length (workers s)")
  case True
  show ?thesis
  proof (cases "\<exists>d. pc (workers s ! i) = WLoop d []")
    case True
    then obtain d where d: "pc (workers s ! i) = WLoop d []" by blast
    obtain r s' where r: "repopulate_display fs s = (r, s')"
      by (cases "repopulate_display fs s")
    have "workers (snd (repopulate_display fs s)) = workers s"
      by (subst repopulate_display_frame) simp
    with r have w: "workers s' = workers s" by simp
    from d r w \<open>i < length (workers s)\<close> show ?thesis
      by (cases r) (simp_all add: load_step_def set_pc_def)
  next
    case False
    then have "\<forall>d. pc (workers s ! i) \<noteq> WLoop d []" by blast
    from arg_cong [where f = "\<lambda>x. length (workers x)",
        OF load_step_frame [OF \<open>i < length (workers s)\<close> this, of fs]]
    show ?thesis
      by (simp add: set_pc_def)
  qed
next
  case False
  then show ?thesis by (simp add: load_step_def)
qed

section \<open>A scan that runs alone\<close>

lemma set_pc_set_pc:
  "set_pc i q (set_pc i p s) = set_pc i q s"
  by (cases "i < length (workers s)") (simp_all add: set_pc_def list_update_beyond)

lemma set_pc_entries:
  "(set_pc i p s)\<lparr>entries := es\<rparr> = set_pc i p (s\<lparr>entries := es\<rparr>)"
  by (simp add: set_pc_def)

lemma repopulate_display_workers:
  "repopulate_display fs (s\<lparr>workers := ws\<rparr>) =
     (fst (repopulate_display fs s), (snd (repopulate_display fs s))\<lparr>workers := ws\<rparr>)"
  by (simp add: repopulate_display_def Let_def clear_options_def add_option_def add_options_def
      settle_highlight_def is_root_def visible_entries_def sort_entries_def hide_def
      split: sum.splits)

lemma scan_loop:
  assumes "i < length (workers s)"
    and "workers s ! i = \<lparr>pc = WLoop (nav_location s) ns, is_cancelled = False\<rparr>"
    and "\<forall>n \<in> set ns. is_dir fs (joinpath (nav_location s) n) \<longrightarrow>
           (\<exists>e. DirectoryEntry_init fs (joinpath (nav_location s) n) = Inr e)"
  shows "run_load fs i s =
           run_load fs i (set_pc i (WLoop (nav_location s) [])
             (s\<lparr>entries := entries s @ subdirectories fs (nav_location s) ns\<rparr>))"
  using assms
proof (induction ns arbitrary: s)
  case Nil
  then have "set_pc i (WLoop (nav_location s) []) s = s"
    by (simp add: set_pc_same)
  then show ?case by (simp add: subdirectories_def)
next
  case (Cons n ns)
  let ?d = "nav_location s"
  let ?next = "\<lambda>es. set_pc i (WLoop ?d ns) (s\<lparr>entries := entries s @ es\<rparr>)"
  have step: "run_load fs i s = run_load fs i (?next (entry_rows fs ?d n))"
  proof (cases "is_dir fs (joinpath ?d n)")
    case True
    then obtain e where e: "DirectoryEntry_init fs (joinpath ?d n) = Inr e"
      using Cons.prems(3) by auto
    let ?s1 = "set_pc i (WAppend ?d n ns) s"
    let ?s2 = "set_pc i (WCheck ?d ns) (s\<lparr>entries := entries s @ [e]\<rparr>)"
    have 1: "load_step fs i s = ?s1"
      using Cons.prems True by (simp add: load_step_def)
    have 2: "load_step fs i ?s1 = ?s2"
      using Cons.prems e by (simp add: load_step_def set_pc_def)
    have 3: "load_step fs i ?s2 = ?next [e]"
      using Cons.prems by (simp add: load_step_def set_pc_def)
    have "run_load fs i s = run_load fs i ?s1"
      using Cons.prems 1 by (simp add: run_load_unfold finished_def)
    also have "\<dots> = run_load fs i ?s2"
      using Cons.prems 2 by (subst run_load_unfold) (simp_all add: finished_def)
    also have "\<dots> = run_load fs i (?next [e])"
      using Cons.prems 3 by (subst run_load_unfold) (simp_all add: finished_def)
    finally show ?thesis using True e by (simp add: entry_rows_def)
  next
    case False
    let ?s1 = "set_pc i (WCheck ?d ns) s"
    have 1: "load_step fs i s = ?s1"
      using Cons.prems False by (simp add: load_step_def)
    have 2: "load_step fs i ?s1 = set_pc i (WLoop ?d ns) s"
      using Cons.prems by (simp add: load_step_def set_pc_def)
    have "run_load fs i s = run_load fs i ?s1"
      using Cons.prems 1 by (simp add: run_load_unfold finished_def)
    also have "\<dots> = run_load fs i (set_pc i (WLoop ?d ns) s)"
      using Cons.prems 2 by (subst run_load_unfold) (simp_all add: finished_def)
    finally show ?thesis using False by (simp add: entry_rows_def)
  qed
  let ?t = "?next (entry_rows fs ?d n)"
  have "run_load fs i ?t =
      run_load fs i (set_pc i (WLoop (nav_location ?t) [])
        (?t\<lparr>entries := entries ?t @ subdirectories fs (nav_location ?t) ns\<rparr>))"
    using Cons.prems by (intro Cons.IH) (simp_all add: set_pc_def)
  also have "set_pc i (WLoop (nav_location ?t) [])
        (?t\<lparr>entries := entries ?t @ subdirectories fs (nav_location ?t) ns\<rparr>)
      = set_pc i (WLoop ?d [])
          (s\<lparr>entries := entries s @ subdirectories fs ?d (n # ns)\<rparr>)"
    using Cons.prems(1) by (simp add: set_pc_def subdirectories_def)
  finally show ?case using step by simp
qed

text \<open>
  A scan that starts on a listable location and runs undisturbed, none of its appends
  raising, leaves in the cache the entries of the subdirectories, in enumeration order,
  and hands over to the projection; it fails only if the projection does.
\<close>

theorem scan_completes:
  assumes "i < length (workers s)"
    and "workers s ! i = \<lparr>pc = WPending, is_cancelled = False\<rparr>"
    and "iterdir fs (nav_location s) = Inr ns"
    and "\<forall>n \<in> set ns. is_dir fs (joinpath (nav_location s) n) \<longrightarrow>
           (\<exists>e. DirectoryEntry_init fs (joinpath (nav_location s) n) = Inr e)"
  shows "run_load fs i s =
     (case repopulate_display fs
             (s\<lparr>entries := subdirectories fs (nav_location s) ns\<rparr>) of
        (None, s') \<Rightarrow> set_pc i WDone s'
      | (Some e, s') \<Rightarrow> set_pc i (WFailed e) s')"
proof -
  let ?d = "nav_location s"
  let ?s3 = "set_pc i (WLoop ?d ns) (s\<lparr>entries := []\<rparr>)"
  let ?s4 = "set_pc i (WLoop ?d []) (s\<lparr>entries := subdirectories fs ?d ns\<rparr>)"
  let ?s1 = "set_pc i WStart s"
  let ?s2 = "set_pc i WIterdir (s\<lparr>entries := []\<rparr>)"
  have 1: "load_step fs i s = ?s1"
    using assms by (simp add: load_step_def)
  have 2: "load_step fs i ?s1 = ?s2"
    using assms by (simp add: load_step_def set_pc_def)
  have 3: "load_step fs i ?s2 = ?s3"
    using assms by (simp add: load_step_def set_pc_def)
  have "run_load fs i s = run_load fs i ?s1"
    using assms 1 by (simp add: run_load_unfold finished_def)
  also have "\<dots> = run_load fs i ?s2"
    using assms 2 by (subst run_load_unfold) (simp_all add: finished_def)
  also have "\<dots> = run_load fs i ?s3"
    using assms 3 by (subst run_load_unfold) (simp_all add: finished_def)
  also have "\<dots> = run_load fs i ?s4"
    using assms scan_loop [of i ?s3 ns fs] by (simp add: set_pc_def)
  also have "\<dots> = load_step fs i ?s4"
  proof -
    have "finished (pc (workers (load_step fs i ?s4) ! i))"
      using assms by (intro load_step_handoff(1) [where d = ?d]) (simp_all add: set_pc_def)
    then have "run_load fs i (load_step fs i ?s4) = load_step fs i ?s4"
      by (rule run_load_finished)
    moreover have "run_load fs i ?s4 = run_load fs i (load_step fs i ?s4)"
      using assms by (intro run_load_unfold) (simp_all add: set_pc_def finished_def)
    ultimately show ?thesis by simp
  qed
  also have "\<dots> = (case repopulate_display fs (s\<lparr>entries := subdirectories fs ?d ns\<rparr>) of
        (None, s') \<Rightarrow> set_pc i WDone s'
      | (Some e, s') \<Rightarrow> set_pc i (WFailed e) s')"
  proof -
    obtain r t where rt: "repopulate_display fs (s\<lparr>entries := subdirectories fs ?d ns\<rparr>) = (r, t)"
      by (cases "repopulate_display fs (s\<lparr>entries := subdirectories fs ?d ns\<rparr>)")
    from repopulate_display_same(1) [of fs "s\<lparr>entries := subdirectories fs ?d ns\<rparr>"] rt
    have wt: "workers t = workers s"
      by simp
    have "repopulate_display fs ?s4 =
        (r, t\<lparr>workers := (workers s)[i := (workers s ! i)\<lparr>pc := WLoop ?d []\<rparr>]\<rparr>)"
      using repopulate_display_workers [where fs = fs
          and s = "s\<lparr>entries := subdirectories fs ?d ns\<rparr>"] rt
      by (simp add: set_pc_def)
    with assms wt rt show ?thesis
      by (cases r) (simp_all add: load_step_def set_pc_def)
  qed
  finally show ?thesis .
qed

section \<open>A scan that finds its flag set\<close>









section \<open>Cancelled and superseded scans\<close>

text \<open>
  Whatever has happened before, the run of a scan that ends in the return at a test of
  the flag changes nothing but the entry cache and the program counter of the scan.
\<close>

lemma early_return_frame:
  assumes "i < length (workers s)"
    and "pc (workers (run_load fs i s) ! i) = WCancelled"
  shows "run_load fs i s = set_pc i WCancelled (s\<lparr>entries := entries (run_load fs i s)\<rparr>)"
  using assms
proof (induction fs i s rule: run_load.induct)
  case (1 fs i s)
  show ?case
  proof (cases "finished (pc (workers s ! i))")
    case True
    then have "run_load fs i s = s" by (rule run_load_finished)
    with "1.prems" show ?thesis by (simp add: set_pc_same)
  next
    case False
    let ?t = "load_step fs i s"
    from False "1.prems" have unf: "run_load fs i s = run_load fs i ?t"
      by (simp add: run_load_unfold)
    have nohand: "\<forall>d. pc (workers s ! i) \<noteq> WLoop d []"
    proof (intro allI notI)
      fix d assume d: "pc (workers s ! i) = WLoop d []"
      from load_step_handoff [OF "1.prems"(1) d, of fs]
      have "run_load fs i ?t = ?t" and "pc (workers ?t ! i) \<noteq> WCancelled"
        by (simp_all add: run_load_finished)
      with unf "1.prems"(2) show False by simp
    qed
    have t: "?t = set_pc i (pc (workers ?t ! i)) (s\<lparr>entries := entries ?t\<rparr>)"
      by (rule load_step_frame [OF "1.prems"(1) nohand])
    have "run_load fs i ?t = set_pc i WCancelled (?t\<lparr>entries := entries (run_load fs i ?t)\<rparr>)"
      using "1.IH" "1.prems" False unf by simp
    also have "\<dots> = set_pc i WCancelled (s\<lparr>entries := entries (run_load fs i ?t)\<rparr>)"
      by (subst t) (rule set_pc_twice)
    finally show ?thesis using unf by simp
  qed
qed


lemma to_b_value:
  "to_b =
     at_root\<lparr>nav_location := posix [''b''], messages := [Changed, Changed],
       workers :=
         [\<lparr>pc = WDone, is_cancelled = False\<rparr>, \<lparr>pc = WPending, is_cancelled = False\<rparr>]\<rparr>"
  unfolding to_b_def at_root_value by (simp add: model_defs)





text \<open>
  A scan has no test of the flag after its last child, nor any when there is no child.
  The scan of \<^verbatim>\<open>/b\<close>, cancelled after the test of its only child, projects all the
  same: the rows of \<^verbatim>\<open>/\<close> give way to the lone parent row.
\<close>

lemma late_cancellation_projects:
  "pc (workers ((load_step fs_example 1 ^^ 5) to_b) ! 1) = WLoop (posix [''b'']) []
   \<and> child_at [''src''] (pc (workers ((load_step fs_example 1 ^^ 5) to_b) ! 1)) = None
   \<and> workers (run_load fs_example 1 (cancel_worker 1 ((load_step fs_example 1 ^^ 5) to_b))) ! 1
       = \<lparr>pc = WDone, is_cancelled = True\<rparr>
   \<and> map prompt_name (options to_b) = [''a'', ''b'']
   \<and> map prompt_name
        (options (run_load fs_example 1 (cancel_worker 1 ((load_step fs_example 1 ^^ 5) to_b))))
       = [''..'']"
  unfolding to_b_value at_root_value
  by (simp add: eval_nat_numeral cancel_worker_def model_defs fs_example_def)

text \<open>
  Claim C1 fails on the code. The scan of \<^verbatim>\<open>/a\<close> has found that \<^verbatim>\<open>src\<close> is a
  directory when the widget moves on to \<^verbatim>\<open>/b\<close>. The new scan starts and empties the
  cache; the old one then runs its append, which reads \<^verbatim>\<open>self._location\<close> and
  \<^verbatim>\<open>self._entries\<close> anew, and only afterwards sees that it is cancelled. When the
  scan of \<^verbatim>\<open>/b\<close> is over, the cache holds \<^verbatim>\<open>/b/src\<close>, which is no directory and
  which the scan of \<^verbatim>\<open>/b\<close> never appended: alone, that scan leaves the cache empty.
\<close>

theorem superseded_scan_reaches_cache:
  "entries (exec fs_example
      [Assign (posix [''b'']), Step 2, Step 2, Step 1, Step 1, Run 2] scanning_a) =
     [\<lparr>location = posix [''b'', ''src''], prompt_name = ''src'', prompt_mtime = 7\<rparr>]
   \<and> map pc (workers (exec fs_example
      [Assign (posix [''b'']), Step 2, Step 2, Step 1, Step 1, Run 2] scanning_a)) =
     [WDone, WCancelled, WDone]
   \<and> entries (exec fs_example [Assign (posix [''b'']), Run 1] at_root) = []"
  unfolding scanning_a_value at_root_value by (simp add: model_defs fs_example_def)

section \<open>A scan whose enumeration fails\<close>

lemma to_missing_value:
  "to_missing =
     at_root\<lparr>nav_location := posix [''missing''], messages := [Changed, Changed],
       workers :=
         [\<lparr>pc = WDone, is_cancelled = False\<rparr>, \<lparr>pc = WPending, is_cancelled = False\<rparr>]\<rparr>"
  unfolding to_missing_def at_root_value by (simp add: model_defs)

text \<open>
  Claim C3, as amended. When \<^verbatim>\<open>iterdir\<close> raises for the current location, the scan
  ends with that error and leaves the current location, the flags, the displayed
  options, the highlight and the messages as they were; the entry cache is left empty,
  whatever it held, because \<^verbatim>\<open>_load\<close> resets it before it lists the directory.
\<close>

theorem failed_enumeration:
  assumes "i < length (workers s)"
    and "workers s ! i = \<lparr>pc = WPending, is_cancelled = False\<rparr>"
    and "iterdir fs (nav_location s) = Inl e"
  shows "run_load fs i s = set_pc i (WFailed e) (s\<lparr>entries := []\<rparr>)"
  using assms
  by (simp add: run_load.simps load_step_def set_pc_def finished_def)

theorem failed_enumeration_witness:
  "1 < length (workers to_missing)
   \<and> workers to_missing ! 1 = \<lparr>pc = WPending, is_cancelled = False\<rparr>
   \<and> iterdir fs_example (nav_location to_missing) = Inl FileNotFoundError
   \<and> run_load fs_example 1 to_missing =
       set_pc 1 (WFailed FileNotFoundError) (to_missing\<lparr>entries := []\<rparr>)"
proof -
  have a: "1 < length (workers to_missing)"
    and b: "workers to_missing ! 1 = \<lparr>pc = WPending, is_cancelled = False\<rparr>"
    and c: "iterdir fs_example (nav_location to_missing) = Inl FileNotFoundError"
    by (simp_all add: to_missing_value at_root_value iterdir_def lookup_def posix_def
        fs_example_def tree_def)
  from a b c failed_enumeration [OF a b c] show ?thesis
    by simp
qed

text \<open>
  Claim C3 as stated fails: the widget has cached \<^verbatim>\<open>/a\<close> and \<^verbatim>\<open>/b\<close>, the scan of
  the missing \<^verbatim>\<open>/missing\<close> fails, and the cache is empty afterwards.
\<close>

theorem failed_scan_empties_cache:
  "iterdir fs_example (posix [''missing'']) = Inl FileNotFoundError
   \<and> entries (exec fs_example [Assign (posix [''missing'']), Run 1] at_root) = []
   \<and> entries (exec fs_example [Assign (posix [''missing'']), Run 1] at_root)
       \<noteq> entries at_root"
  unfolding at_root_value by (simp add: model_defs fs_example_def)

section \<open>Assigning the current location\<close>

lemma at_a_value:
  "at_a =
     \<lparr>mounted = True, nav_location = posix [''a''], initial_location = posix [],
      entries =
        [\<lparr>location = posix [''a'', ''src''], prompt_name = ''src'', prompt_mtime = 3\<rparr>,
         \<lparr>location = posix [''a'', ''.git''], prompt_name = ''.git'', prompt_mtime = 4\<rparr>,
         \<lparr>location = posix [''a'', ''docs''], prompt_name = ''docs'', prompt_mtime = 5\<rparr>],
      show_hidden = False, sort_display = True,
      options =
        [\<lparr>location = posix [], prompt_name = ''..'', prompt_mtime = 1\<rparr>,
         \<lparr>location = posix [''a'', ''docs''], prompt_name = ''docs'', prompt_mtime = 5\<rparr>,
         \<lparr>location = posix [''a'', ''src''], prompt_name = ''src'', prompt_mtime = 3\<rparr>],
      highlighted = Some 0, messages = [Changed, Changed],
      workers =
        [\<lparr>pc = WDone, is_cancelled = False\<rparr>, \<lparr>pc = WDone, is_cancelled = False\<rparr>]\<rparr>"
  unfolding at_a_def at_root_value by (simp add: model_defs fs_example_def)

text \<open>
  Claim C4, as amended. Assigning the current location starts no scan and posts no
  message. On a mounted widget the whole state is unchanged; before the widget is
  mounted the setter records the value as the pending initial location and changes
  nothing else.
\<close>

theorem assign_current_location:
  assumes "new_location = nav_location s"
  shows "workers (location_setter new_location s) = workers s
     \<and> messages (location_setter new_location s) = messages s
     \<and> location_setter new_location s =
         (if mounted s then s else s\<lparr>initial_location := new_location\<rparr>)"
  using assms by (simp add: location_setter_def set_location_def)

theorem assign_current_location_witness:
  "posix [''a''] = nav_location at_a
   \<and> workers (location_setter (posix [''a'']) at_a) = workers at_a
   \<and> messages (location_setter (posix [''a'']) at_a) = messages at_a
   \<and> location_setter (posix [''a'']) at_a =
         (if mounted at_a then at_a else at_a\<lparr>initial_location := posix [''a'']\<rparr>)"
proof -
  have a: "posix [''a''] = nav_location at_a"
    by (simp add: at_a_value)
  from a assign_current_location [OF a] show ?thesis
    by simp
qed

text \<open>
  Claim C4 as stated fails before the mount. The widget was created in \<^verbatim>\<open>/a\<close> for
  the location \<^verbatim>\<open>/\<close>, so its current location is \<^verbatim>\<open>/a\<close>. Assigning \<^verbatim>\<open>/a\<close>
  changes the state, and with it what the mount does: without the assignment the mount
  starts the scan of \<^verbatim>\<open>/\<close>, after it the mount starts none.
\<close>

theorem assign_before_mount_changes_state:
  "posix [''a''] = nav_location unmounted
   \<and> location_setter (posix [''a'']) unmounted \<noteq> unmounted
   \<and> workers (on_mount unmounted) = [\<lparr>pc = WPending, is_cancelled = False\<rparr>]
   \<and> workers (on_mount (location_setter (posix [''a'']) unmounted)) = []"
  by (simp add: unmounted_def model_defs)

section \<open>Changing the display policy\<close>

lemma toggle_hidden_unfold:
  "toggle_hidden fs s = repopulate_display fs (s\<lparr>show_hidden := \<not> show_hidden s\<rparr>)"
  by (simp add: toggle_hidden_def set_show_hidden_def watch_show_hidden_def)

lemma set_sort_display_unfold:
  "set_sort_display fs b s =
     (if b = sort_display s then (None, s) else repopulate_display fs (s\<lparr>sort_display := b\<rparr>))"
  by (simp add: set_sort_display_def watch_sort_display_def)

text \<open>The filesystem enters a projection through the \<^verbatim>\<open>stat\<close> of the parent only.\<close>

lemma repopulate_display_stat:
  assumes "stat_mtime fs (joinpath (nav_location s) ''..'')
             = stat_mtime fs' (joinpath (nav_location s) ''..'')"
  shows "repopulate_display fs s = repopulate_display fs' s"
  using assms
  by (simp add: repopulate_display_def DirectoryEntry_init_def DirectoryEntry_mtime_def
      clear_options_def Let_def)

lemma repopulate_display_rows:
  assumes "repopulate_display fs s = (None, s')"
  shows "drop (if is_root s then 0 else 1) (options s') = visible_entries s"
proof (cases "is_root s")
  case True
  with assms show ?thesis by (auto simp: repopulate_display_root)
next
  case False
  with assms show ?thesis
    by (cases "DirectoryEntry_init fs (joinpath (nav_location s) ''..'')")
       (auto simp: repopulate_display_error repopulate_display_parent)
qed

text \<open>
  Claim C5, as amended. Toggling \<^verbatim>\<open>show_hidden\<close> or setting \<^verbatim>\<open>sort_display\<close>
  starts no scan and lists no directory: the workers, the entry cache and the current
  location are unchanged, and when the projection goes through, the rows after the parent
  row are derived from the existing cache and the new flag alone. The filesystem is read
  in one place only, the \<^verbatim>\<open>stat\<close> of the parent directory for the parent row: two
  filesystems that agree there give the same result.
\<close>

theorem display_policy_change:
  assumes "stat_mtime fs (joinpath (nav_location s) ''..'')
             = stat_mtime fs' (joinpath (nav_location s) ''..'')"
  shows "toggle_hidden fs s = toggle_hidden fs' s
     \<and> set_sort_display fs b s = set_sort_display fs' b s
     \<and> workers (snd (toggle_hidden fs s)) = workers s
     \<and> workers (snd (set_sort_display fs b s)) = workers s
     \<and> entries (snd (toggle_hidden fs s)) = entries s
     \<and> entries (snd (set_sort_display fs b s)) = entries s
     \<and> nav_location (snd (toggle_hidden fs s)) = nav_location s
     \<and> nav_location (snd (set_sort_display fs b s)) = nav_location s
     \<and> (fst (toggle_hidden fs s) = None \<longrightarrow>
          drop (if is_root s then 0 else 1) (options (snd (toggle_hidden fs s)))
            = visible_entries (s\<lparr>show_hidden := \<not> show_hidden s\<rparr>))
     \<and> (b \<noteq> sort_display s \<longrightarrow> fst (set_sort_display fs b s) = None \<longrightarrow>
          drop (if is_root s then 0 else 1) (options (snd (set_sort_display fs b s)))
            = visible_entries (s\<lparr>sort_display := b\<rparr>))"
proof -
  have 1: "toggle_hidden fs s = toggle_hidden fs' s"
    unfolding toggle_hidden_unfold
    by (rule repopulate_display_stat) (simp add: assms)
  have "repopulate_display fs (s\<lparr>sort_display := b\<rparr>)
          = repopulate_display fs' (s\<lparr>sort_display := b\<rparr>)"
    by (rule repopulate_display_stat) (simp add: assms)
  then have 2: "set_sort_display fs b s = set_sort_display fs' b s"
    by (cases "b = sort_display s") (simp_all only: set_sort_display_unfold if_True if_False)
  have 3: "workers (snd (toggle_hidden fs s)) = workers s"
    "entries (snd (toggle_hidden fs s)) = entries s"
    "nav_location (snd (toggle_hidden fs s)) = nav_location s"
    by (simp_all add: toggle_hidden_unfold repopulate_display_same)
  have 4: "workers (snd (set_sort_display fs b s)) = workers s"
    "entries (snd (set_sort_display fs b s)) = entries s"
    "nav_location (snd (set_sort_display fs b s)) = nav_location s"
    by (simp_all add: set_sort_display_unfold repopulate_display_same)
  have 5: "drop (if is_root s then 0 else 1) (options (snd (toggle_hidden fs s)))
            = visible_entries (s\<lparr>show_hidden := \<not> show_hidden s\<rparr>)"
    if "fst (toggle_hidden fs s) = None"
  proof -
    from that have "repopulate_display fs (s\<lparr>show_hidden := \<not> show_hidden s\<rparr>)
        = (None, snd (toggle_hidden fs s))"
      by (simp add: toggle_hidden_unfold prod_eq_iff)
    from repopulate_display_rows [OF this] show ?thesis
      by (simp add: is_root_def)
  qed
  have 6: "drop (if is_root s then 0 else 1) (options (snd (set_sort_display fs b s)))
            = visible_entries (s\<lparr>sort_display := b\<rparr>)"
    if "b \<noteq> sort_display s" "fst (set_sort_display fs b s) = None"
  proof -
    from that have "repopulate_display fs (s\<lparr>sort_display := b\<rparr>)
        = (None, snd (set_sort_display fs b s))"
      by (simp add: set_sort_display_unfold prod_eq_iff)
    from repopulate_display_rows [OF this] show ?thesis
      by (simp add: is_root_def)
  qed
  from 1 2 3 4 5 6 show ?thesis by blast
qed

text \<open>
  The theorem at work on \<^verbatim>\<open>/a\<close>: a directory created in \<^verbatim>\<open>/a\<close> since the scan
  does not show when the flags change.
\<close>

lemma stat_grown:
  "stat_mtime fs_example (joinpath (nav_location at_a) ''..'')
     = stat_mtime fs_grown (joinpath (nav_location at_a) ''..'')"
  by (simp add: at_a_value stat_mtime_def lookup_def joinpath_def posix_def fs_example_def
      fs_grown_def tree_def)

lemma toggle_at_a:
  "toggle_hidden fs_example at_a =
    (None, at_a\<lparr>show_hidden := True,
       options :=
        [\<lparr>location = posix [], prompt_name = ''..'', prompt_mtime = 1\<rparr>,
         \<lparr>location = posix [''a'', ''.git''], prompt_name = ''.git'', prompt_mtime = 4\<rparr>,
         \<lparr>location = posix [''a'', ''docs''], prompt_name = ''docs'', prompt_mtime = 5\<rparr>,
         \<lparr>location = posix [''a'', ''src''], prompt_name = ''src'', prompt_mtime = 3\<rparr>]\<rparr>)"
  unfolding at_a_value
  by (simp add: toggle_hidden_def set_show_hidden_def watch_show_hidden_def model_defs fs_example_def)

theorem display_policy_change_witness:
  "stat_mtime fs_example (joinpath (nav_location at_a) ''..'')
     = stat_mtime fs_grown (joinpath (nav_location at_a) ''..'')
   \<and> toggle_hidden fs_example at_a = toggle_hidden fs_grown at_a
   \<and> workers (snd (toggle_hidden fs_example at_a)) = workers at_a
   \<and> entries (snd (toggle_hidden fs_example at_a)) = entries at_a
   \<and> fst (toggle_hidden fs_example at_a) = None
   \<and> False \<noteq> sort_display at_a
   \<and> fst (set_sort_display fs_example False at_a) = None
   \<and> drop (if is_root at_a then 0 else 1) (options (snd (toggle_hidden fs_example at_a)))
        = visible_entries (at_a\<lparr>show_hidden := \<not> show_hidden at_a\<rparr>)
   \<and> drop (if is_root at_a then 0 else 1) (options (snd (set_sort_display fs_example False at_a)))
        = visible_entries (at_a\<lparr>sort_display := False\<rparr>)"
proof -
  have a: "fst (toggle_hidden fs_example at_a) = None"
    by (simp add: toggle_at_a)
  have b: "False \<noteq> sort_display at_a"
    by (simp add: at_a_value)
  have c: "fst (set_sort_display fs_example False at_a) = None"
    unfolding at_a_value
    by (simp add: set_sort_display_def watch_sort_display_def model_defs fs_example_def)
  from stat_grown a b c display_policy_change [OF stat_grown, of False] show ?thesis
    by blast
qed

text \<open>
  Claim C5 as stated fails: the toggle reads the filesystem. On \<^verbatim>\<open>/a\<close> it builds the
  parent row anew, with the modification time that \<^verbatim>\<open>/\<close> has by then.
\<close>

theorem toggle_reads_parent:
  "toggle_hidden fs_example at_a \<noteq> toggle_hidden fs_touched at_a"
  unfolding at_a_value
  by (simp add: toggle_hidden_def set_show_hidden_def watch_show_hidden_def model_defs
      fs_example_def fs_touched_def)

section \<open>The projection: hidden entries, the parent row, the order\<close>

lemma set_visible_entries:
  "set (visible_entries s) = {e \<in> set (entries s). \<not> hide s (location e)}"
  by (simp add: visible_entries_def sort_entries_def)

lemma name_parent [simp]: "name (joinpath p ''..'') = ''..''"
  by (simp add: name_def joinpath_def)

lemma mtime_stat:
  "DirectoryEntry_mtime fs p = Inr m \<Longrightarrow> stat_mtime fs p = Inr m"
  by (auto simp: DirectoryEntry_mtime_def fromtimestamp_def split: sum.splits if_splits)

lemma parent_row:
  assumes "\<not> is_root s" and "repopulate_display fs s = (None, s')"
  shows "\<exists>m. stat_mtime fs (joinpath (nav_location s) ''..'') = Inr m
           \<and> options s' =
               \<lparr>location = resolve (joinpath (nav_location s) ''..''), prompt_name = ''..'',
                prompt_mtime = m\<rparr> # visible_entries s"
proof (cases "DirectoryEntry_mtime fs (joinpath (nav_location s) ''..'')")
  case (Inl e)
  then have "DirectoryEntry_init fs (joinpath (nav_location s) ''..'') = Inl e"
    by (simp add: DirectoryEntry_init_def)
  with assms show ?thesis
    by (simp add: repopulate_display_error)
next
  case (Inr m)
  then have "DirectoryEntry_init fs (joinpath (nav_location s) ''..'') =
      Inr \<lparr>location = resolve (joinpath (nav_location s) ''..''), prompt_name = ''..'',
           prompt_mtime = m\<rparr>"
    by (simp add: DirectoryEntry_init_def)
  with assms mtime_stat [OF Inr] show ?thesis
    by (auto simp: repopulate_display_parent)
qed

text \<open>
  Claim C6. An entry is hidden iff the name of its location starts with a dot. After a
  projection, a cached entry is in the displayed list iff \<^verbatim>\<open>show_hidden\<close> is set or
  the entry is not hidden: hidden entries are absent when the flag is off and present
  when it is on, and the others are always present. (Rows are compared as values, so
  the entry must not be the parent row itself: its prompt is not \<^verbatim>\<open>..\<close>, which
  \<^verbatim>\<open>iterdir\<close> never yields.)
\<close>

theorem hidden_entry_rule:
  assumes "repopulate_display fs s = (None, s')"
    and "e \<in> set (entries s)"
    and "prompt_name e \<noteq> ''..''"
  shows "(is_hidden (location e) \<longleftrightarrow> take 1 (name (location e)) = ''.'')
     \<and> (e \<in> set (options s') \<longleftrightarrow> (show_hidden s \<or> \<not> is_hidden (location e)))"
proof -
  have cls: "is_hidden (location e) \<longleftrightarrow> take 1 (name (location e)) = ''.''"
    by (cases "name (location e)") (simp_all add: is_hidden_def)
  have vis: "e \<in> set (visible_entries s) \<longleftrightarrow> (show_hidden s \<or> \<not> is_hidden (location e))"
    using assms(2) by (auto simp: set_visible_entries hide_def)
  have "e \<in> set (options s') \<longleftrightarrow> e \<in> set (visible_entries s)"
  proof (cases "is_root s")
    case True
    with assms(1) show ?thesis by (auto simp: repopulate_display_root)
  next
    case False
    from parent_row [OF False assms(1)] assms(3) show ?thesis by auto
  qed
  with cls vis show ?thesis by simp
qed

lemma git_entry:
  "\<lparr>location = posix [''a'', ''.git''], prompt_name = ''.git'', prompt_mtime = 4\<rparr>
     \<in> set (entries at_a)"
  by (simp add: at_a_value)

lemma repopulate_at_a:
  "repopulate_display fs_example at_a = (None, at_a)"
  unfolding at_a_value by (simp add: model_defs fs_example_def)

text \<open>
  The theorem at work on \<^verbatim>\<open>/a\<close>, where hidden entries are not shown: \<^verbatim>\<open>.git\<close> is
  cached, hidden, and absent from the list.
\<close>

theorem hidden_entry_rule_witness:
  "repopulate_display fs_example at_a = (None, at_a)
   \<and> \<lparr>location = posix [''a'', ''.git''], prompt_name = ''.git'', prompt_mtime = 4\<rparr>
       \<in> set (entries at_a)
   \<and> is_hidden (posix [''a'', ''.git''])
   \<and> \<not> show_hidden at_a
   \<and> \<lparr>location = posix [''a'', ''.git''], prompt_name = ''.git'', prompt_mtime = 4\<rparr>
       \<notin> set (options at_a)"
proof -
  have n: "prompt_name \<lparr>location = posix [''a'', ''.git''], prompt_name = ''.git'',
      prompt_mtime = 4\<rparr> \<noteq> ''..''"
    by simp
  have h: "is_hidden (posix [''a'', ''.git''])" "\<not> show_hidden at_a"
    by (simp_all add: is_hidden_def name_def posix_def at_a_value)
  from hidden_entry_rule [OF repopulate_at_a git_entry n] h repopulate_at_a git_entry
  show ?thesis by simp
qed

text \<open>
  The test \<^verbatim>\<open>is_root\<close> compares the location with \<^verbatim>\<open>Path(self._location.root)\<close>,
  which has no drive. Without a drive it is the test for a filesystem root; with a drive
  it is never true.
\<close>

lemma is_root_posix:
  "drive (nav_location s) = [] \<Longrightarrow> is_root s \<longleftrightarrow> filesystem_root (nav_location s)"
  by (cases "nav_location s") (simp add: is_root_def Path_of_root_def filesystem_root_def)

lemma is_root_drive:
  "drive (nav_location s) \<noteq> [] \<Longrightarrow> \<not> is_root s"
  by (auto simp: is_root_def Path_of_root_def)

lemma at_c_drive_value:
  "at_c_drive =
     \<lparr>mounted = True, nav_location = c_drive, initial_location = c_drive,
      entries =
        [\<lparr>location = \<lparr>drive = ''C:'', parts = [''Users'']\<rparr>, prompt_name = ''Users'',
          prompt_mtime = 2\<rparr>],
      show_hidden = False, sort_display = True,
      options =
        [\<lparr>location = c_drive, prompt_name = ''..'', prompt_mtime = 1\<rparr>,
         \<lparr>location = \<lparr>drive = ''C:'', parts = [''Users'']\<rparr>, prompt_name = ''Users'',
          prompt_mtime = 2\<rparr>],
      highlighted = Some 0, messages = [Changed],
      workers = [\<lparr>pc = WDone, is_cancelled = False\<rparr>]\<rparr>"
  unfolding at_c_drive_def by (simp add: model_defs fs_windows_def c_drive_def)

text \<open>
  Claim C7 fails on the code. On the root of drive \<^verbatim>\<open>C:\<close>, which is a filesystem
  root, \<^verbatim>\<open>is_root\<close> is false, and the displayed list starts with a parent row, which
  leads back to the drive root itself. Where the row is present it is the first one and
  is built apart from the filter and the sort, as lemma \<open>parent_row\<close> shows; on a
  location without a drive the row is present iff the location is not a root
  (\<open>is_root_posix\<close>).
\<close>

theorem drive_root_shows_parent_row:
  "filesystem_root (nav_location at_c_drive)
   \<and> \<not> is_root at_c_drive
   \<and> map prompt_name (options at_c_drive) = [''..'', ''Users'']
   \<and> location (hd (options at_c_drive)) = nav_location at_c_drive"
  by (simp add: at_c_drive_value filesystem_root_def is_root_def Path_of_root_def c_drive_def)

text \<open>
  Claim C8. The rows after the parent row are the visible entries. With
  \<^verbatim>\<open>sort_display\<close> on they are the visible cached entries ordered by the names of
  their locations, strings being compared character code by character code, so with
  regard to case; with it off they are the visible cached entries in the order of the
  cache. The widget on \<^verbatim>\<open>/a\<close>, which holds \<^verbatim>\<open>src\<close>, \<^verbatim>\<open>.git\<close> and \<^verbatim>\<open>docs\<close>,
  shows the parent row, \<^verbatim>\<open>docs\<close> and \<^verbatim>\<open>src\<close>; and \<^verbatim>\<open>Zeta\<close> sorts before
  \<^verbatim>\<open>alpha\<close>.
\<close>

theorem sort_rule:
  assumes "repopulate_display fs s = (None, s')"
  shows "drop (if is_root s then 0 else 1) (options s') = visible_entries s
     \<and> (sort_display s \<longrightarrow>
          sorted (map (\<lambda>e. name (location e)) (visible_entries s))
          \<and> mset (visible_entries s) = mset (filter (\<lambda>e. \<not> hide s (location e)) (entries s)))
     \<and> (\<not> sort_display s \<longrightarrow>
          visible_entries s = filter (\<lambda>e. \<not> hide s (location e)) (entries s))
     \<and> nav_location at_a = posix [''a'']
     \<and> map prompt_name (entries at_a) = [''src'', ''.git'', ''docs'']
     \<and> \<not> show_hidden at_a \<and> sort_display at_a
     \<and> map prompt_name (options at_a) = [''..'', ''docs'', ''src'']
     \<and> map prompt_name
          (sort_entries at_a
             [\<lparr>location = posix [''a'', ''alpha''], prompt_name = ''alpha'', prompt_mtime = 0\<rparr>,
              \<lparr>location = posix [''a'', ''Zeta''], prompt_name = ''Zeta'', prompt_mtime = 0\<rparr>])
         = [''Zeta'', ''alpha'']"
proof -
  have "drop (if is_root s then 0 else 1) (options s') = visible_entries s"
    using assms by (rule repopulate_display_rows)
  moreover have "sorted (map (\<lambda>e. name (location e)) (visible_entries s))"
    "mset (visible_entries s) = mset (filter (\<lambda>e. \<not> hide s (location e)) (entries s))"
    if "sort_display s"
    using that by (simp_all add: visible_entries_def sort_entries_def)
  moreover have "visible_entries s = filter (\<lambda>e. \<not> hide s (location e)) (entries s)"
    if "\<not> sort_display s"
    using that by (simp add: visible_entries_def sort_entries_def)
  moreover have "nav_location at_a = posix [''a'']"
    "map prompt_name (entries at_a) = [''src'', ''.git'', ''docs'']"
    "\<not> show_hidden at_a" "sort_display at_a"
    "map prompt_name (options at_a) = [''..'', ''docs'', ''src'']"
    by (simp_all add: at_a_value)
  moreover have "map prompt_name
      (sort_entries at_a
         [\<lparr>location = posix [''a'', ''alpha''], prompt_name = ''alpha'', prompt_mtime = 0\<rparr>,
          \<lparr>location = posix [''a'', ''Zeta''], prompt_name = ''Zeta'', prompt_mtime = 0\<rparr>])
      = [''Zeta'', ''alpha'']"
    by (simp add: sort_entries_def at_a_value name_def posix_def)
  ultimately show ?thesis by blast
qed

theorem sort_rule_witness:
  "repopulate_display fs_example at_a = (None, at_a)
   \<and> sort_display at_a
   \<and> drop (if is_root at_a then 0 else 1) (options at_a) = visible_entries at_a
   \<and> sorted (map (\<lambda>e. name (location e)) (visible_entries at_a))
   \<and> map prompt_name (visible_entries at_a) = [''docs'', ''src'']"
proof -
  have s: "sort_display at_a"
    by (simp add: at_a_value)
  have v: "map prompt_name (visible_entries at_a) = [''docs'', ''src'']"
    unfolding at_a_value by (simp add: model_defs)
  from sort_rule [OF repopulate_at_a] s v repopulate_at_a show ?thesis
    by blast
qed

section \<open>The drives\<close>

text \<open>
  Claim C9, as amended. \<^verbatim>\<open>on_mount\<close> handles no error: when \<^verbatim>\<open>os.listdrives()\<close>
  raises, the error leaves \<^verbatim>\<open>on_mount\<close> and no option is added; when it returns, its
  drives are added in the order given.
\<close>

theorem drive_on_mount_result:
  "drive_on_mount (Inl e) s = Inl e
   \<and> drive_on_mount (Inr ds) s = Inr (s\<lparr>drive_options := drive_options s @ ds\<rparr>)"
  by (simp add: drive_on_mount_def)

text \<open>
  Claim C9 as stated fails: where \<^verbatim>\<open>os.listdrives\<close> does not exist, mounting the widget
  raises instead of giving an empty list.
\<close>

theorem listdrives_failure_raises:
  "drive_on_mount (Inl AttributeError) \<lparr>drive_options = [], drive_messages = []\<rparr>
     = Inl AttributeError
   \<and> drive_on_mount (Inl AttributeError) \<lparr>drive_options = [], drive_messages = []\<rparr>
     \<noteq> Inr \<lparr>drive_options = [], drive_messages = []\<rparr>"
  by (simp add: drive_on_mount_def)

section \<open>Equality of entries\<close>

text \<open>
  Claim C10, as amended. Two entries compare equal iff they are the same object. Two
  entries constructed one after the other from the same path both hold the resolved
  path, and do not compare equal.
\<close>

theorem entry_equality_is_identity:
  assumes "new_DirectoryEntry fs p h = Inr (a, h1)"
    and "new_DirectoryEntry fs p h1 = Inr (b, h2)"
  shows "(entry_eq x y \<longleftrightarrow> x = y)
     \<and> \<not> entry_eq a b
     \<and> location (h2 ! a) = resolve p
     \<and> location (h2 ! b) = resolve p"
proof -
  obtain v where v: "DirectoryEntry_init fs p = Inr v"
    using assms(1) by (cases "DirectoryEntry_init fs p") (simp_all add: new_DirectoryEntry_def)
  from assms(1) v have first: "a = length h" "h1 = h @ [v]"
    by (auto simp: new_DirectoryEntry_def)
  from assms(2) v first have second: "b = Suc (length h)" "h2 = h @ [v, v]"
    by (auto simp: new_DirectoryEntry_def)
  note refs = first second
  from v have "location v = resolve p"
    by (cases "DirectoryEntry_mtime fs p") (auto simp: DirectoryEntry_init_def)
  with refs show ?thesis
    by (simp add: entry_eq_def nth_append)
qed

theorem entry_equality_is_identity_witness:
  "new_DirectoryEntry fs_example (posix [''a'']) [] =
     Inr (0, [\<lparr>location = posix [''a''], prompt_name = ''a'', prompt_mtime = 2\<rparr>])
   \<and> new_DirectoryEntry fs_example (posix [''a''])
       [\<lparr>location = posix [''a''], prompt_name = ''a'', prompt_mtime = 2\<rparr>] =
     Inr (1, [\<lparr>location = posix [''a''], prompt_name = ''a'', prompt_mtime = 2\<rparr>,
              \<lparr>location = posix [''a''], prompt_name = ''a'', prompt_mtime = 2\<rparr>])
   \<and> \<not> entry_eq 0 1
   \<and> entry_eq 1 1"
proof -
  let ?v = "\<lparr>location = posix [''a''], prompt_name = ''a'', prompt_mtime = 2\<rparr>"
  have a: "new_DirectoryEntry fs_example (posix [''a'']) [] = Inr (0, [?v])"
    by (simp add: new_DirectoryEntry_def model_defs fs_example_def)
  have b: "new_DirectoryEntry fs_example (posix [''a'']) [?v] = Inr (1, [?v, ?v])"
    by (simp add: new_DirectoryEntry_def model_defs fs_example_def)
  from entry_equality_is_identity [OF a b, of 1 1] a b show ?thesis
    by simp
qed

text \<open>
  Claim C10 as stated fails: two entries built from \<^verbatim>\<open>/a\<close> have equal resolved paths
  and are not equal.
\<close>

theorem same_path_entries_differ:
  "new_DirectoryEntry fs_example (posix [''a'']) [] =
     Inr (0, [\<lparr>location = posix [''a''], prompt_name = ''a'', prompt_mtime = 2\<rparr>])
   \<and> new_DirectoryEntry fs_example (posix [''a''])
       [\<lparr>location = posix [''a''], prompt_name = ''a'', prompt_mtime = 2\<rparr>] =
     Inr (1, [\<lparr>location = posix [''a''], prompt_name = ''a'', prompt_mtime = 2\<rparr>,
              \<lparr>location = posix [''a''], prompt_name = ''a'', prompt_mtime = 2\<rparr>])
   \<and> location ([\<lparr>location = posix [''a''], prompt_name = ''a'', prompt_mtime = 2\<rparr>,
              \<lparr>location = posix [''a''], prompt_name = ''a'', prompt_mtime = 2\<rparr>] ! 0)
     = location ([\<lparr>location = posix [''a''], prompt_name = ''a'', prompt_mtime = 2\<rparr>,
              \<lparr>location = posix [''a''], prompt_name = ''a'', prompt_mtime = 2\<rparr>] ! 1)
   \<and> \<not> entry_eq 0 1"
  by (simp add: new_DirectoryEntry_def model_defs fs_example_def entry_eq_def)

end
